theory Spec2Isabelle
  imports Complex_Main "HOL-Library.Finite_Map"
begin

section \<open>Conventions of the embedding\<close>

text \<open>
  The native module computes on C++ \<^verbatim>\<open>double\<close>. Here a \<^verbatim>\<open>double\<close> is a \<^typ>\<open>real\<close>:
  arithmetic is exact, \<^verbatim>\<open>std::exp\<close>, \<^verbatim>\<open>std::log1p\<close> and \<^verbatim>\<open>std::sqrt\<close> are the
  mathematical functions, and there is neither rounding nor NaN nor infinity. Every
  theorem below is a statement about this exact-arithmetic reading of the code. A
  quotient with divisor zero (an infinity or a NaN in the code) is 0 in HOL; no theorem
  below rests on that value: where a quotient is evaluated, the hypotheses or the guards
  of the code keep its divisor away from zero. A C++
  \<^verbatim>\<open>int\<close> is an \<^typ>\<open>int\<close> (the code only converts such values to \<^verbatim>\<open>double\<close> or
  clamps them, so no machine overflow is involved), a \<^verbatim>\<open>size_t\<close> index is a
  \<^typ>\<open>nat\<close>, a \<^verbatim>\<open>std::vector\<close> and an array behind a pointer are lists read
  with \<open>!\<close>.

  The sources are compiled either with or without the macro \<^verbatim>\<open>HAS_AVX2\<close>. Functions
  whose body depends on it take the flag as their first argument \<open>has_avx2\<close>.
\<close>

section \<open>Decay scoring (decay.hpp, decay.cpp)\<close>

subsection \<open>Data model\<close>

text \<open>
  \<^verbatim>\<open>double type_multipliers[4]\<close> is a fixed array of four entries; it is a quadruple,
  read by \<open>nth4\<close> at an index that \<^verbatim>\<open>calculate\<close> has clamped to 0..3 beforehand.
\<close>

type_synonym real4 = "real \<times> real \<times> real \<times> real"

fun nth4 :: "real4 \<Rightarrow> nat \<Rightarrow> real" where
  "nth4 (m0, m1, m2, m3) i = (if i = 0 then m0 else if i = 1 then m1 else if i = 2 then m2 else m3)"

text \<open>
  Modelled from the spec: the field \<open>channel_mentions\<close> of \<^verbatim>\<open>DecayInput\<close> and the field
  \<open>channel_diversity_k\<close> of \<^verbatim>\<open>DecayConfig\<close>. decay.hpp as given declares neither, while
  decay.cpp reads both and the Python binding initialises \<^verbatim>\<open>DecayInput\<close> with
  \<open>channel_mentions\<close> as its seventh member (an \<^verbatim>\<open>int\<close>) and exposes
  \<open>channel_diversity_k\<close> as a member of \<^verbatim>\<open>DecayConfig\<close>. The spec lists
  \<open>channelMentions\<close> as a non-negative integer and \<open>channelDiversityK\<close> among the
  tunable real parameters. The other fields are those of decay.hpp, in its order.
\<close>

record DecayInput =
  importance :: real
  hours_passed :: real
  access_count :: int
  connection_count :: int
  last_access_hours :: real
  memory_type :: int
  channel_mentions :: int

record DecayConfig =
  base_decay_rate :: real
  min_retention :: real
  access_stability_k :: real
  relation_resistance_k :: real
  channel_diversity_k :: real
  type_multipliers :: real4

subsection \<open>The scalar path: calculate\<close>

definition fast_exp_neg :: "real \<Rightarrow> real" where
  "fast_exp_neg x = (if x < 0.01 then exp (- x) else exp (- x))"

definition fast_log1p :: "real \<Rightarrow> real" where
  "fast_log1p x =
     (if x < 0.1 then
        (let x2 = x * x; x3 = x2 * x in x - 0.5 * x2 + (1 / 3) * x3)
      else ln (1 + x))"

text \<open>\<^verbatim>\<open>std::clamp(v, lo, hi)\<close>: \<open>lo\<close> if \<open>v < lo\<close>, else \<open>hi\<close> if \<open>hi < v\<close>, else \<open>v\<close>.\<close>

definition clamp :: "int \<Rightarrow> int \<Rightarrow> int \<Rightarrow> int" where
  "clamp v lo hi = (if v < lo then lo else if hi < v then hi else v)"

text \<open>
  The local variables of \<^verbatim>\<open>calculate\<close>, each as a function of the input and the
  configuration, under the names the source gives them.
\<close>

definition stability :: "DecayInput \<Rightarrow> DecayConfig \<Rightarrow> real" where
  "stability inp cfg =
     1 + access_stability_k cfg * fast_log1p (real_of_int (access_count inp))"

definition resistance :: "DecayInput \<Rightarrow> DecayConfig \<Rightarrow> real" where
  "resistance inp cfg =
     min 1 (real_of_int (connection_count inp) * relation_resistance_k cfg)"

definition type_idx :: "DecayInput \<Rightarrow> int" where
  "type_idx inp = clamp (memory_type inp) 0 3"

definition type_multiplier :: "DecayInput \<Rightarrow> DecayConfig \<Rightarrow> real" where
  "type_multiplier inp cfg = nth4 (type_multipliers cfg) (nat (type_idx inp))"

definition channel_boost :: "DecayInput \<Rightarrow> DecayConfig \<Rightarrow> real" where
  "channel_boost inp cfg =
     1 / (1 + channel_diversity_k cfg * real_of_int (channel_mentions inp))"

definition effective_rate :: "DecayInput \<Rightarrow> DecayConfig \<Rightarrow> real" where
  "effective_rate inp cfg =
     base_decay_rate cfg * type_multiplier inp cfg * channel_boost inp cfg
       / stability inp cfg * (1 - resistance inp cfg)"

text \<open>The condition of the recency-paradox branch.\<close>

definition recency_paradox :: "DecayInput \<Rightarrow> bool" where
  "recency_paradox inp \<longleftrightarrow>
     last_access_hours inp \<ge> 0 \<and> hours_passed inp > 168 \<and> last_access_hours inp < 24"

text \<open>
  The variable \<open>decayed\<close> as it stands when the final \<^verbatim>\<open>std::max\<close> reads it: the
  exponential decay, multiplied by 1.3 in the recency-paradox branch.
\<close>

definition decayed :: "DecayInput \<Rightarrow> DecayConfig \<Rightarrow> real" where
  "decayed inp cfg =
     (let d = importance inp * fast_exp_neg (effective_rate inp cfg * hours_passed inp)
      in if recency_paradox inp then d * 1.3 else d)"

definition calculate :: "DecayInput \<Rightarrow> DecayConfig \<Rightarrow> real" where
  "calculate inp cfg =
     (if hours_passed inp < 0 then importance inp
      else max (decayed inp cfg) (importance inp * min_retention cfg))"

subsection \<open>Loops that store one result per index\<close>

text \<open>
  \<^verbatim>\<open>for (; i < n; ++i) out[i] = g(i);\<close> The result array is a list of the length
  the caller (or the constructor \<^verbatim>\<open>std::vector<double> results(n)\<close>) gave it; a write
  beyond that length is undefined behaviour in C++ and leaves the list as it is here, so
  the lemmas on \<open>store_loop\<close> read only positions inside the list.
\<close>

function store_loop :: "(nat \<Rightarrow> 'a) \<Rightarrow> nat \<Rightarrow> nat \<Rightarrow> 'a list \<Rightarrow> 'a list" where
  "store_loop g n i out = (if i < n then store_loop g n (Suc i) (out[i := g i]) else out)"
  by pat_completeness auto
termination
  by (relation "measure (\<lambda>(g, n, i, out). n - i)") auto

declare store_loop.simps [simp del]

text \<open>
  The loop of the AVX2 branch of \<^verbatim>\<open>calculate_batch_arrays\<close>:
  \<^verbatim>\<open>for (; i + 4 <= n; i += 4)\<close>, each turn storing the four lanes \<open>i .. i + 3\<close>
  with \<^verbatim>\<open>_mm256_storeu_pd(&output[i], ...)\<close>. It returns the index it stopped at
  together with the array, since the scalar loop that follows starts there.
\<close>

function store4_loop :: "(nat \<Rightarrow> 'a) \<Rightarrow> nat \<Rightarrow> nat \<Rightarrow> 'a list \<Rightarrow> nat \<times> 'a list" where
  "store4_loop g n i out =
     (if i + 4 \<le> n then
        store4_loop g n (i + 4)
          (out[i := g i, i + 1 := g (i + 1), i + 2 := g (i + 2), i + 3 := g (i + 3)])
      else (i, out))"
  by pat_completeness auto
termination
  by (relation "measure (\<lambda>(g, n, i, out). n - i)") auto

declare store4_loop.simps [simp del]

subsection \<open>The batch paths: calculate_batch and calculate_batch_arrays\<close>

text \<open>
  \<^verbatim>\<open>calculate_batch\<close>: an outer loop over chunks of 64 and an inner loop over the
  indices of the chunk, on a result vector that starts as \<open>inputs.size()\<close> zeros.
\<close>

function calculate_batch_chunks ::
  "DecayInput list \<Rightarrow> DecayConfig \<Rightarrow> nat \<Rightarrow> real list \<Rightarrow> real list" where
  "calculate_batch_chunks inputs cfg i results =
     (if i < length inputs then
        (let stop = min (i + 64) (length inputs)
         in calculate_batch_chunks inputs cfg (i + 64)
              (store_loop (\<lambda>j. calculate (inputs ! j) cfg) stop i results))
      else results)"
  by pat_completeness auto
termination
  by (relation "measure (\<lambda>(inputs, cfg, i, results). length inputs - i)") auto

declare calculate_batch_chunks.simps [simp del]

definition calculate_batch :: "DecayInput list \<Rightarrow> DecayConfig \<Rightarrow> real list" where
  "calculate_batch inputs cfg =
     calculate_batch_chunks inputs cfg 0 (replicate (length inputs) 0)"

text \<open>
  One lane of the body of the AVX2 loop, for the \<open>k\<close>-th entries of the parallel arrays.
  The lane-wise intrinsics (\<^verbatim>\<open>_mm256_mul_pd\<close>, \<^verbatim>\<open>_mm256_div_pd\<close>, \<^verbatim>\<open>_mm256_sub_pd\<close>,
  \<^verbatim>\<open>_mm256_min_pd\<close>, \<^verbatim>\<open>_mm256_max_pd\<close>) act on each lane as the scalar operation
  does, and the scalar sub-loops over \<open>k = 0..3\<close> compute per lane as written. The body
  has no test of \<open>hours_passed < 0\<close>.
\<close>

definition avx2_lane ::
  "real \<Rightarrow> real \<Rightarrow> int \<Rightarrow> int \<Rightarrow> real \<Rightarrow> int \<Rightarrow> int \<Rightarrow> DecayConfig \<Rightarrow> real" where
  "avx2_lane imp hours ac cc lah mt cm cfg =
     (let stab = 1 + access_stability_k cfg * fast_log1p (real_of_int ac);
          res = min (real_of_int cc * relation_resistance_k cfg) 1;
          tm = nth4 (type_multipliers cfg) (nat (clamp mt 0 3));
          cb = 1 / (1 + channel_diversity_k cfg * real_of_int cm);
          eff_rate = base_decay_rate cfg * tm * cb / stab * (1 - res);
          decay_factor = fast_exp_neg (eff_rate * hours);
          dec = imp * decay_factor;
          dec' = (if lah \<ge> 0 \<and> hours > 168 \<and> lah < 24 then dec * 1.3 else dec);
          min_val = imp * min_retention cfg
      in max dec' min_val)"

text \<open>
  \<^verbatim>\<open>calculate_batch_arrays\<close>. With \<^verbatim>\<open>HAS_AVX2\<close> the vector loop runs over the full
  groups of four and a scalar loop finishes the rest with
  \<^verbatim>\<open>DecayInput input{importance[i], ..., memory_type[i], channel_mentions[i]}\<close>.
  Without it the loop initialises \<^verbatim>\<open>DecayInput input{importance[i], ..., memory_type[i]}\<close>
  with six initialisers only: the seventh member, \<open>channel_mentions\<close>, is
  value-initialised, that is 0 (the value the binding's constructor also defaults to).
\<close>

definition calculate_batch_arrays ::
  "bool \<Rightarrow> nat \<Rightarrow> real list \<Rightarrow> real list \<Rightarrow> int list \<Rightarrow> int list \<Rightarrow> real list \<Rightarrow> int list
     \<Rightarrow> int list \<Rightarrow> DecayConfig \<Rightarrow> real list \<Rightarrow> real list" where
  "calculate_batch_arrays has_avx2 n importance_a hours_passed_a access_count_a
       connection_count_a last_access_hours_a memory_type_a channel_mentions_a cfg output =
     (if has_avx2 then
        (let (i, out) =
               store4_loop
                 (\<lambda>j. avx2_lane (importance_a ! j) (hours_passed_a ! j) (access_count_a ! j)
                        (connection_count_a ! j) (last_access_hours_a ! j) (memory_type_a ! j)
                        (channel_mentions_a ! j) cfg)
                 n 0 output
         in store_loop
              (\<lambda>j. calculate
                     \<lparr>importance = importance_a ! j, hours_passed = hours_passed_a ! j,
                      access_count = access_count_a ! j,
                      connection_count = connection_count_a ! j,
                      last_access_hours = last_access_hours_a ! j,
                      memory_type = memory_type_a ! j,
                      channel_mentions = channel_mentions_a ! j\<rparr> cfg)
              n i out)
      else
        store_loop
          (\<lambda>j. calculate
                 \<lparr>importance = importance_a ! j, hours_passed = hours_passed_a ! j,
                  access_count = access_count_a ! j,
                  connection_count = connection_count_a ! j,
                  last_access_hours = last_access_hours_a ! j,
                  memory_type = memory_type_a ! j,
                  channel_mentions = 0\<rparr> cfg)
          n 0 output)"

text \<open>
  Equality to within 1e-9 relative error, in the words of the specification: the batch
  value \<open>x\<close> against the scalar value \<open>y\<close>.
\<close>

definition within_rel_tolerance :: "real \<Rightarrow> real \<Rightarrow> bool" where
  "within_rel_tolerance x y \<longleftrightarrow> \<bar>x - y\<bar> \<le> \<bar>y\<bar> / 10 ^ 9"

section \<open>Vector similarity (vector_ops.hpp, vector_ops.cpp)\<close>

subsection \<open>Accumulation loops\<close>

text \<open>
  An array behind a pointer is read through an access function \<open>p :: nat \<Rightarrow> real\<close>:
  \<open>\<lambda>i. a ! i\<close> for a vector \<open>a\<close>, and \<open>\<lambda>i. corpus ! (v * dim + i)\<close> for
  \<^verbatim>\<open>const double* vec = corpus + v * dim\<close>.

  The 256-bit registers hold four lanes (\<open>real4\<close>). \<^verbatim>\<open>_mm256_fmadd_pd(a, b, c)\<close> is
  \<open>a * b + c\<close> on each lane, and the horizontal sum is \<open>tmp[0] + tmp[1] + tmp[2] + tmp[3]\<close>.
\<close>

definition setzero_pd :: real4 where
  "setzero_pd = (0, 0, 0, 0)"

definition loadu_pd :: "(nat \<Rightarrow> real) \<Rightarrow> nat \<Rightarrow> real4" where
  "loadu_pd p i = (p i, p (i + 1), p (i + 2), p (i + 3))"

fun fmadd_pd :: "real4 \<Rightarrow> real4 \<Rightarrow> real4 \<Rightarrow> real4" where
  "fmadd_pd (a0, a1, a2, a3) (b0, b1, b2, b3) (c0, c1, c2, c3) =
     (a0 * b0 + c0, a1 * b1 + c1, a2 * b2 + c2, a3 * b3 + c3)"

fun horizontal_sum :: "real4 \<Rightarrow> real" where
  "horizontal_sum (t0, t1, t2, t3) = t0 + t1 + t2 + t3"

text \<open>
  The loops of vector_ops.cpp update up to three accumulators per turn (\<open>dot\<close>,
  \<open>norm_a\<close>, \<open>norm_b\<close>), each by \<open>acc += x[i] * y[i]\<close> for its own pair of arrays and
  independently of the others. Each accumulator is modelled by its own run of the loop:
  \<open>mul_add_loop\<close> is the scalar loop \<^verbatim>\<open>for (; i < n; ++i) acc += x[i] * y[i];\<close>,
  \<open>fmadd_loop\<close> the vector loop
  \<^verbatim>\<open>for (; i + 4 <= n; i += 4) sum = _mm256_fmadd_pd(loadu(&x[i]), loadu(&y[i]), sum);\<close>
  and \<open>dot_product\<close> what an accumulator holds after the \<^verbatim>\<open>#ifdef HAS_AVX2\<close> block:
  vector loop, horizontal sum and scalar loop over the remaining elements with the
  flag, the scalar loop from 0 without it.
\<close>

function mul_add_loop :: "(nat \<Rightarrow> real) \<Rightarrow> (nat \<Rightarrow> real) \<Rightarrow> nat \<Rightarrow> nat \<Rightarrow> real \<Rightarrow> real" where
  "mul_add_loop x y n i acc =
     (if i < n then mul_add_loop x y n (Suc i) (acc + x i * y i) else acc)"
  by pat_completeness auto
termination
  by (relation "measure (\<lambda>(x, y, n, i, acc). n - i)") auto

declare mul_add_loop.simps [simp del]

function fmadd_loop ::
  "(nat \<Rightarrow> real) \<Rightarrow> (nat \<Rightarrow> real) \<Rightarrow> nat \<Rightarrow> nat \<Rightarrow> real4 \<Rightarrow> nat \<times> real4" where
  "fmadd_loop x y n i sm =
     (if i + 4 \<le> n then
        fmadd_loop x y n (i + 4) (fmadd_pd (loadu_pd x i) (loadu_pd y i) sm)
      else (i, sm))"
  by pat_completeness auto
termination
  by (relation "measure (\<lambda>(x, y, n, i, sm). n - i)") auto

declare fmadd_loop.simps [simp del]

definition dot_product :: "bool \<Rightarrow> (nat \<Rightarrow> real) \<Rightarrow> (nat \<Rightarrow> real) \<Rightarrow> nat \<Rightarrow> real" where
  "dot_product has_avx2 x y n =
     (if has_avx2 then
        (let (i, sm) = fmadd_loop x y n 0 setzero_pd
         in mul_add_loop x y n i (horizontal_sum sm))
      else mul_add_loop x y n 0 0)"

subsection \<open>cosine_similarity and cosine_similarity_batch\<close>

text \<open>
  The parameter \<open>dim\<close> of the source is written \<open>dim'\<close>, since \<open>dim\<close> is a constant of
  the library. The pre-computed query norm of \<^verbatim>\<open>cosine_similarity_batch\<close> is a scalar
  loop in both builds.
\<close>

definition cosine_similarity :: "bool \<Rightarrow> real list \<Rightarrow> real list \<Rightarrow> real" where
  "cosine_similarity has_avx2 a b =
     (if length a \<noteq> length b \<or> a = [] then 0
      else
        (let n = length a;
             dot = dot_product has_avx2 (\<lambda>i. a ! i) (\<lambda>i. b ! i) n;
             norm_a = dot_product has_avx2 (\<lambda>i. a ! i) (\<lambda>i. a ! i) n;
             norm_b = dot_product has_avx2 (\<lambda>i. b ! i) (\<lambda>i. b ! i) n;
             denom = sqrt norm_a * sqrt norm_b
         in if denom < 1 / 10 ^ 10 then 0 else dot / denom))"

definition cosine_similarity_batch ::
  "bool \<Rightarrow> real list \<Rightarrow> real list \<Rightarrow> nat \<Rightarrow> nat \<Rightarrow> real list" where
  "cosine_similarity_batch has_avx2 query corpus n_vectors dim' =
     (let results = replicate n_vectors 0
      in if length query \<noteq> dim' then results
         else
           (let query_norm_sq = mul_add_loop (\<lambda>i. query ! i) (\<lambda>i. query ! i) dim' 0 0;
                query_norm = sqrt query_norm_sq
            in if query_norm < 1 / 10 ^ 10 then results
               else
                 store_loop
                   (\<lambda>v. let vec = (\<lambda>i. corpus ! (v * dim' + i));
                            dot = dot_product has_avx2 (\<lambda>i. query ! i) vec dim';
                            vec_norm_sq = dot_product has_avx2 vec vec dim';
                            vec_norm = sqrt vec_norm_sq
                        in if vec_norm < 1 / 10 ^ 10 then 0
                           else dot / (query_norm * vec_norm))
                   n_vectors 0 results))"

subsection \<open>find_duplicates_by_embedding\<close>

text \<open>
  The pre-computed norms: \<^verbatim>\<open>std::vector<double> norms(n)\<close>, filled by a scalar loop
  in both builds.
\<close>

definition row_norms :: "real list \<Rightarrow> nat \<Rightarrow> nat \<Rightarrow> real list" where
  "row_norms embeddings n dim' =
     store_loop
       (\<lambda>i. let vec = (\<lambda>d. embeddings ! (i * dim' + d));
                norm_sq = mul_add_loop vec vec dim' 0 0
            in sqrt norm_sq)
       n 0 (replicate n 0)"

text \<open>
  The body of the inner loop for a pair that passed both norm tests: the dot product of
  rows \<open>i\<close> and \<open>j\<close> (by the \<^verbatim>\<open>#ifdef HAS_AVX2\<close> block or the scalar loop) divided by
  \<open>norms[i] * norms[j]\<close>, the value the source names \<open>similarity\<close>.
\<close>

definition pair_similarity :: "bool \<Rightarrow> real list \<Rightarrow> nat \<Rightarrow> real list \<Rightarrow> nat \<Rightarrow> nat \<Rightarrow> real" where
  "pair_similarity has_avx2 embeddings dim' norms i j =
     (let vec_i = (\<lambda>d. embeddings ! (i * dim' + d));
          vec_j = (\<lambda>d. embeddings ! (j * dim' + d));
          dot = dot_product has_avx2 vec_i vec_j dim'
      in dot / (norms ! i * norms ! j))"

text \<open>
  The two nested loops, \<open>i\<close> from 0 and \<open>j\<close> from \<open>i + 1\<close>, with their two
  \<^verbatim>\<open>continue\<close> statements; \<^verbatim>\<open>duplicates.emplace_back(i, j, similarity)\<close> appends to
  the result.
\<close>

function duplicates_inner ::
  "bool \<Rightarrow> real list \<Rightarrow> nat \<Rightarrow> nat \<Rightarrow> real \<Rightarrow> real list \<Rightarrow> nat \<Rightarrow> nat
     \<Rightarrow> (nat \<times> nat \<times> real) list \<Rightarrow> (nat \<times> nat \<times> real) list" where
  "duplicates_inner has_avx2 embeddings n dim' threshold norms i j duplicates =
     (if j < n then
        (if norms ! j < 1 / 10 ^ 10 then
           duplicates_inner has_avx2 embeddings n dim' threshold norms i (Suc j) duplicates
         else
           (let similarity = pair_similarity has_avx2 embeddings dim' norms i j
            in duplicates_inner has_avx2 embeddings n dim' threshold norms i (Suc j)
                 (if similarity \<ge> threshold then duplicates @ [(i, j, similarity)]
                  else duplicates)))
      else duplicates)"
  by pat_completeness auto
termination
  by (relation "measure (\<lambda>(h, e, n, d, t, norms, i, j, dups). n - j)") auto

declare duplicates_inner.simps [simp del]

function duplicates_outer ::
  "bool \<Rightarrow> real list \<Rightarrow> nat \<Rightarrow> nat \<Rightarrow> real \<Rightarrow> real list \<Rightarrow> nat
     \<Rightarrow> (nat \<times> nat \<times> real) list \<Rightarrow> (nat \<times> nat \<times> real) list" where
  "duplicates_outer has_avx2 embeddings n dim' threshold norms i duplicates =
     (if i < n then
        (if norms ! i < 1 / 10 ^ 10 then
           duplicates_outer has_avx2 embeddings n dim' threshold norms (Suc i) duplicates
         else
           duplicates_outer has_avx2 embeddings n dim' threshold norms (Suc i)
             (duplicates_inner has_avx2 embeddings n dim' threshold norms i (Suc i) duplicates))
      else duplicates)"
  by pat_completeness auto
termination
  by (relation "measure (\<lambda>(h, e, n, d, t, norms, i, dups). n - i)") auto

declare duplicates_outer.simps [simp del]

definition find_duplicates_by_embedding ::
  "bool \<Rightarrow> real list \<Rightarrow> nat \<Rightarrow> nat \<Rightarrow> real \<Rightarrow> (nat \<times> nat \<times> real) list" where
  "find_duplicates_by_embedding has_avx2 embeddings n dim' threshold =
     duplicates_outer has_avx2 embeddings n dim' threshold (row_norms embeddings n dim') 0 []"

subsection \<open>The mathematical quantities the claims speak of\<close>

text \<open>
  The Euclidean norm of a vector, row \<open>v\<close> of a row-major matrix with rows of length
  \<open>dim'\<close>, the inner product, and the cosine similarity of the glossary (the dot product
  of two vectors divided by the product of their norms). These follow the words of the
  specification, not the code; the theorems compare the code with them.
\<close>

definition euclid_norm :: "real list \<Rightarrow> real" where
  "euclid_norm xs = sqrt (\<Sum>x\<leftarrow>xs. x\<^sup>2)"

definition matrix_row :: "real list \<Rightarrow> nat \<Rightarrow> nat \<Rightarrow> real list" where
  "matrix_row m dim' v = take dim' (drop (v * dim') m)"

definition inner_product :: "real list \<Rightarrow> real list \<Rightarrow> real" where
  "inner_product xs ys = (\<Sum>(x, y)\<leftarrow>zip xs ys. x * y)"

definition cosine :: "real list \<Rightarrow> real list \<Rightarrow> real" where
  "cosine xs ys = inner_product xs ys / (euclid_norm xs * euclid_norm ys)"


text \<open>
  The order the claim on \<^verbatim>\<open>find_duplicates_by_embedding\<close> speaks of: ascending in
  \<open>i\<close> and, for equal \<open>i\<close>, ascending in \<open>j\<close> (strictly, so that no pair occurs twice).
  \<open>inner_hits\<close> lists what one run of the inner loop from \<open>j\<close> appends, as a
  comprehension; the proofs compare the loops with it.
\<close>

definition pair_order :: "nat \<times> nat \<times> real \<Rightarrow> nat \<times> nat \<times> real \<Rightarrow> bool" where
  "pair_order p q \<longleftrightarrow> fst p < fst q \<or> (fst p = fst q \<and> fst (snd p) < fst (snd q))"

definition inner_hits ::
  "bool \<Rightarrow> real list \<Rightarrow> nat \<Rightarrow> nat \<Rightarrow> real \<Rightarrow> real list \<Rightarrow> nat \<Rightarrow> nat \<Rightarrow> (nat \<times> nat \<times> real) list" where
  "inner_hits h e n dim' t norms i j =
     map (\<lambda>j. (i, j, pair_similarity h e dim' norms i j))
       (filter (\<lambda>j. \<not> norms ! j < 1 / 10 ^ 10 \<and> t \<le> pair_similarity h e dim' norms i j) [j..<n])"

section \<open>Graph reachability (graph_ops.hpp, graph_ops.cpp)\<close>

text \<open>
  The adjacency \<^verbatim>\<open>std::unordered_map<size_t, std::vector<size_t>>\<close> is a finite map
  from node ids to neighbour lists, the set \<^verbatim>\<open>visited\<close> a set of node ids, the queue
  \<^verbatim>\<open>frontier\<close> a list of (node, depth) pairs with its front at the head. Depths are
  \<^verbatim>\<open>int\<close>; \<open>depth + 1\<close> is computed only when \<open>depth < max_depth\<close>, so it stays in
  range.

  \<open>enqueue_unvisited\<close> is the loop that both the initialisation (over
  \<open>start_nodes\<close>, with depth 0) and the expansion of a node (over its neighbours, with
  \<open>depth + 1\<close>) run: \<^verbatim>\<open>if (visited.find(x) == visited.end()) { visited.insert(x);
  frontier.push({x, d}); }\<close>.
\<close>

type_synonym adjacency = "(nat, nat list) fmap"

fun enqueue_unvisited ::
  "nat list \<Rightarrow> int \<Rightarrow> nat set \<times> (nat \<times> int) list \<Rightarrow> nat set \<times> (nat \<times> int) list" where
  "enqueue_unvisited [] d (visited, frontier) = (visited, frontier)"
| "enqueue_unvisited (node # nodes) d (visited, frontier) =
     (if node \<notin> visited then
        enqueue_unvisited nodes d (insert node visited, frontier @ [(node, d)])
      else enqueue_unvisited nodes d (visited, frontier))"

text \<open>
  The \<^verbatim>\<open>while (!frontier.empty())\<close> loop. It terminates: every turn pops one entry,
  and every entry pushed is a node of some neighbour list that had not been visited
  before.
\<close>

function bfs_loop :: "adjacency \<Rightarrow> int \<Rightarrow> nat set \<times> (nat \<times> int) list \<Rightarrow> nat set" where
  "bfs_loop adjacency max_depth (visited, []) = visited"
| "bfs_loop adjacency max_depth (visited, (current, depth) # frontier) =
     (if depth \<ge> max_depth then bfs_loop adjacency max_depth (visited, frontier)
      else
        (case fmlookup adjacency current of
           None \<Rightarrow> bfs_loop adjacency max_depth (visited, frontier)
         | Some neighbors \<Rightarrow>
             bfs_loop adjacency max_depth
               (enqueue_unvisited neighbors (depth + 1) (visited, frontier))))"
  by pat_completeness auto
termination
proof (relation "measure (\<lambda>(adjacency, max_depth, visited, frontier).
          2 * card (\<Union> (set ` fmran' adjacency) - visited) + length frontier)")
  show "wf (measure (\<lambda>(adjacency, max_depth, visited, frontier).
          2 * card (\<Union> (set ` fmran' adjacency) - visited) + length frontier))"
    by simp
next
  fix adjacency :: adjacency and max_depth :: int and visited :: "nat set"
    and current :: nat and depth :: int and frontier :: "(nat \<times> int) list"
  show "((adjacency, max_depth, visited, frontier),
         (adjacency, max_depth, visited, (current, depth) # frontier))
        \<in> measure (\<lambda>(adjacency, max_depth, visited, frontier).
          2 * card (\<Union> (set ` fmran' adjacency) - visited) + length frontier)"
    by simp
  then show "((adjacency, max_depth, visited, frontier),
         (adjacency, max_depth, visited, (current, depth) # frontier))
        \<in> measure (\<lambda>(adjacency, max_depth, visited, frontier).
          2 * card (\<Union> (set ` fmran' adjacency) - visited) + length frontier)" .
next
  fix adjacency :: adjacency and max_depth :: int and visited :: "nat set"
    and current :: nat and depth :: int and frontier :: "(nat \<times> int) list"
    and neighbors :: "nat list"
  assume look: "fmlookup adjacency current = Some neighbors"
  let ?U = "\<Union> (set ` fmran' adjacency)"
  have fin: "finite ?U" by (simp add: fmran'_alt_def)
  have sub: "set neighbors \<subseteq> ?U" using look by (auto intro: fmran'I)
  have step: "2 * card (?U - fst (enqueue_unvisited nodes d (vis, q)))
                + length (snd (enqueue_unvisited nodes d (vis, q)))
              \<le> 2 * card (?U - vis) + length q"
    if "set nodes \<subseteq> ?U" for nodes d vis q
    using that
  proof (induction nodes arbitrary: vis q)
    case Nil
    then show ?case by simp
  next
    case (Cons node nodes)
    show ?case
    proof (cases "node \<in> vis")
      case True
      with Cons show ?thesis by simp
    next
      case False
      with Cons.prems have "node \<in> ?U - vis" by simp
      then have "card (?U - insert node vis) < card (?U - vis)"
        using fin by (intro psubset_card_mono) auto
      moreover have "2 * card (?U - fst (enqueue_unvisited nodes d (insert node vis, q @ [(node, d)])))
                + length (snd (enqueue_unvisited nodes d (insert node vis, q @ [(node, d)])))
              \<le> 2 * card (?U - insert node vis) + length (q @ [(node, d)])"
        using Cons.prems by (intro Cons.IH) simp
      ultimately show ?thesis using False by simp
    qed
  qed
  show "((adjacency, max_depth, enqueue_unvisited neighbors (depth + 1) (visited, frontier)),
         (adjacency, max_depth, visited, (current, depth) # frontier))
        \<in> measure (\<lambda>(adjacency, max_depth, visited, frontier).
          2 * card (\<Union> (set ` fmran' adjacency) - visited) + length frontier)"
    using step [OF sub, of "depth + 1" visited frontier]
    by (simp add: split_beta)
qed

declare bfs_loop.simps [simp del]

definition bfs_neighbors :: "adjacency \<Rightarrow> nat list \<Rightarrow> int \<Rightarrow> nat set" where
  "bfs_neighbors adjacency start_nodes max_depth =
     bfs_loop adjacency max_depth (enqueue_unvisited start_nodes 0 ({}, []))"

section \<open>Conditions on inputs and configurations\<close>

text \<open>
  The non-negativity conditions of the data model (counts) and of the tunable
  parameters that enter the decay rate, as predicates on the records.
\<close>

definition nonneg_counts :: "DecayInput \<Rightarrow> bool" where
  "nonneg_counts inp \<longleftrightarrow>
     0 \<le> access_count inp \<and> 0 \<le> connection_count inp \<and> 0 \<le> channel_mentions inp"

fun nonneg4 :: "real4 \<Rightarrow> bool" where
  "nonneg4 (m0, m1, m2, m3) \<longleftrightarrow> 0 \<le> m0 \<and> 0 \<le> m1 \<and> 0 \<le> m2 \<and> 0 \<le> m3"

definition nonneg_rate_params :: "DecayConfig \<Rightarrow> bool" where
  "nonneg_rate_params cfg \<longleftrightarrow>
     0 \<le> base_decay_rate cfg \<and> 0 \<le> access_stability_k cfg \<and>
     0 \<le> relation_resistance_k cfg \<and> 0 \<le> channel_diversity_k cfg \<and>
     nonneg4 (type_multipliers cfg)"

subsection \<open>Example records\<close>

text \<open>
  Concrete inputs for the closed instances below. \<open>example_config\<close> carries the default
  member initialisers of decay.hpp, and 0.2 for \<open>channel_diversity_k\<close> (whose default
  is not among the declarations of decay.hpp). \<open>fresh_record h\<close> is the record of the
  specification's scenarios (importance 1, never accessed, no connections, type 0, no
  channel mentions) at age \<open>h\<close>; \<open>revisited_record\<close> is 200 hours old and was accessed
  5 hours ago.
\<close>

abbreviation example_config :: DecayConfig where
  "example_config \<equiv>
     \<lparr>base_decay_rate = 0.002, min_retention = 0.1, access_stability_k = 0.3,
      relation_resistance_k = 0.1, channel_diversity_k = 0.2,
      type_multipliers = (1, 0.3, 0.5, 0.7)\<rparr>"

abbreviation fresh_record :: "real \<Rightarrow> DecayInput" where
  "fresh_record h \<equiv>
     \<lparr>importance = 1, hours_passed = h, access_count = 0, connection_count = 0,
      last_access_hours = - 1, memory_type = 0, channel_mentions = 0\<rparr>"

abbreviation revisited_record :: DecayInput where
  "revisited_record \<equiv>
     \<lparr>importance = 1, hours_passed = 200, access_count = 3, connection_count = 2,
      last_access_hours = 5, memory_type = 1, channel_mentions = 1\<rparr>"

section \<open>Properties of calculate\<close>

lemma fast_exp_neg_exp: "fast_exp_neg x = exp (- x)"
  by (simp add: fast_exp_neg_def)

lemma fast_log1p_of_int_nonneg: "0 \<le> n \<Longrightarrow> 0 \<le> fast_log1p (real_of_int n)"
proof -
  assume n: "0 \<le> n"
  show ?thesis
  proof (cases "n = 0")
    case True
    then show ?thesis by (simp add: fast_log1p_def)
  next
    case False
    with n have "1 \<le> real_of_int n" by simp
    then show ?thesis by (simp add: fast_log1p_def)
  qed
qed

lemma stability_ge_1:
  "0 \<le> access_stability_k cfg \<Longrightarrow> 0 \<le> access_count inp \<Longrightarrow> 1 \<le> stability inp cfg"
  by (simp add: stability_def fast_log1p_of_int_nonneg)

lemma resistance_le_1: "resistance inp cfg \<le> 1"
  by (simp add: resistance_def)

lemma resistance_nonneg:
  "0 \<le> relation_resistance_k cfg \<Longrightarrow> 0 \<le> connection_count inp \<Longrightarrow> 0 \<le> resistance inp cfg"
  by (simp add: resistance_def)

lemma nth4_nonneg: "nonneg4 m \<Longrightarrow> 0 \<le> nth4 m i"
  by (cases m) simp

lemma type_multiplier_nonneg: "nonneg4 (type_multipliers cfg) \<Longrightarrow> 0 \<le> type_multiplier inp cfg"
  by (simp add: type_multiplier_def nth4_nonneg)

lemma channel_boost_nonneg:
  "0 \<le> channel_diversity_k cfg \<Longrightarrow> 0 \<le> channel_mentions inp \<Longrightarrow> 0 \<le> channel_boost inp cfg"
  by (simp add: channel_boost_def)

lemma effective_rate_nonneg:
  assumes "nonneg_counts inp" and "nonneg_rate_params cfg"
  shows "0 \<le> effective_rate inp cfg"
proof -
  from assms have s: "0 < stability inp cfg"
    using stability_ge_1 [of cfg inp] by (simp add: nonneg_counts_def nonneg_rate_params_def)
  from assms have t: "0 \<le> type_multiplier inp cfg"
    by (simp add: type_multiplier_nonneg nonneg_rate_params_def)
  from assms have c: "0 \<le> channel_boost inp cfg"
    by (simp add: channel_boost_nonneg nonneg_counts_def nonneg_rate_params_def)
  from assms have b: "0 \<le> base_decay_rate cfg"
    by (simp add: nonneg_rate_params_def)
  have r: "0 \<le> 1 - resistance inp cfg"
    using resistance_le_1 [of inp cfg] by simp
  have "0 \<le> base_decay_rate cfg * type_multiplier inp cfg * channel_boost inp cfg"
    using b t c by simp
  then have "0 \<le> base_decay_rate cfg * type_multiplier inp cfg * channel_boost inp cfg
       / stability inp cfg"
    using s by simp
  then show ?thesis
    unfolding effective_rate_def using r by (rule mult_nonneg_nonneg)
qed

lemma effective_rate_hours [simp]:
  "effective_rate (inp\<lparr>hours_passed := h\<rparr>) cfg = effective_rate inp cfg"
  by (simp add: effective_rate_def type_multiplier_def type_idx_def channel_boost_def
      stability_def resistance_def)

text \<open>
  C5. A record whose \<open>hours_passed\<close> is negative keeps exactly its \<open>importance\<close>, whatever
  its other fields and whatever the configuration.
\<close>

theorem calculate_negative_hours:
  "hours_passed inp < 0 \<Longrightarrow> calculate inp cfg = importance inp"
  by (simp add: calculate_def)

theorem calculate_negative_hours_witness:
  "hours_passed (revisited_record\<lparr>hours_passed := - 3\<rparr>) < 0
   \<and> calculate (revisited_record\<lparr>hours_passed := - 3\<rparr>) example_config = 1"
  using calculate_negative_hours [of "revisited_record\<lparr>hours_passed := - 3\<rparr>" example_config]
  by simp

text \<open>
  C8. The recency-paradox boost and its boundary: for a record with \<open>hours_passed \<ge> 0\<close>
  the value that enters the final floor is \<open>importance * exp (- effective_rate *
  hours_passed)\<close>, multiplied by 1.3 exactly when \<open>last_access_hours \<ge> 0\<close>,
  \<open>hours_passed > 168\<close> (strict) and \<open>last_access_hours < 24\<close> (strict), and left as it is
  in every other case; the score is the larger of that value and the floor.
\<close>

theorem calculate_recency_boundary:
  assumes "0 \<le> hours_passed inp"
  shows "decayed inp cfg =
      (if 0 \<le> last_access_hours inp \<and> 168 < hours_passed inp \<and> last_access_hours inp < 24
       then 1.3 * (importance inp * exp (- (effective_rate inp cfg * hours_passed inp)))
       else importance inp * exp (- (effective_rate inp cfg * hours_passed inp)))
    \<and> calculate inp cfg = max (decayed inp cfg) (importance inp * min_retention cfg)"
  using assms by (simp add: decayed_def calculate_def recency_paradox_def fast_exp_neg_exp Let_def)

text \<open>
  An instance: a record of age 200 hours last accessed 5 hours ago is boosted; the lemma
  after it is the same record at age exactly 168 hours, which is not.
\<close>

theorem calculate_recency_boundary_witness:
  "0 \<le> hours_passed revisited_record
   \<and> decayed revisited_record example_config
      = 1.3 * (1 * exp (- (effective_rate revisited_record example_config * 200)))
   \<and> calculate revisited_record example_config
      = max (decayed revisited_record example_config) (1 * 0.1)"
  using calculate_recency_boundary [of revisited_record example_config]
  by simp

lemma no_boost_at_168_hours:
  "decayed (revisited_record\<lparr>hours_passed := 168\<rparr>) example_config
     = exp (- (effective_rate (revisited_record\<lparr>hours_passed := 168\<rparr>) example_config * 168))"
  by (simp add: decayed_def recency_paradox_def fast_exp_neg_exp)

text \<open>
  C9 (as amended). For a record with non-negative counts and a configuration whose
  \<open>base_decay_rate\<close>, \<open>access_stability_k\<close>, \<open>relation_resistance_k\<close>,
  \<open>channel_diversity_k\<close> and four type multipliers are non-negative, \<open>resistance\<close> lies
  in [0, 1] and \<open>effective_rate\<close> is not negative.
\<close>

theorem resistance_and_rate_bounds:
  assumes "nonneg_counts inp" and "nonneg_rate_params cfg"
  shows "0 \<le> resistance inp cfg \<and> resistance inp cfg \<le> 1 \<and> 0 \<le> effective_rate inp cfg"
proof -
  have "0 \<le> resistance inp cfg"
    using assms by (simp add: resistance_nonneg nonneg_counts_def nonneg_rate_params_def)
  moreover have "resistance inp cfg \<le> 1" by (rule resistance_le_1)
  moreover have "0 \<le> effective_rate inp cfg" using assms by (rule effective_rate_nonneg)
  ultimately show ?thesis by simp
qed

theorem resistance_and_rate_bounds_witness:
  "nonneg_counts revisited_record
   \<and> nonneg_rate_params example_config
   \<and> 0 \<le> resistance revisited_record example_config
   \<and> resistance revisited_record example_config \<le> 1
   \<and> 0 \<le> effective_rate revisited_record example_config"
  using resistance_and_rate_bounds [of revisited_record example_config]
  by (simp add: nonneg_counts_def nonneg_rate_params_def)

text \<open>
  C9 as stated, for every configuration, fails: \<^verbatim>\<open>std::min(1.0, ...)\<close> bounds
  \<open>resistance\<close> from above only, and nothing in \<^verbatim>\<open>calculate\<close> restricts the sign of a
  parameter. For the record \<open>revisited_record\<close> (two connections) and
  \<open>relation_resistance_k = - 0.1\<close> the resistance is \<open>- 0.2\<close>; with
  \<open>base_decay_rate = - 0.002\<close> the effective rate is negative.
\<close>

theorem resistance_and_rate_counterexample:
  "nonneg_counts revisited_record
   \<and> resistance revisited_record (example_config\<lparr>relation_resistance_k := - 0.1\<rparr>) < 0
   \<and> effective_rate (fresh_record 10) (example_config\<lparr>base_decay_rate := - 0.002\<rparr>) < 0"
  by (simp add: nonneg_counts_def resistance_def effective_rate_def type_multiplier_def
      type_idx_def clamp_def channel_boost_def stability_def fast_log1p_def)

section \<open>The batch paths against calculate\<close>

lemma store_loop_length [simp]: "length (store_loop g n i out) = length out"
  by (induction g n i out rule: store_loop.induct) (subst store_loop.simps, simp)

lemma store_loop_nth:
  "k < length out \<Longrightarrow>
   store_loop g n i out ! k = (if i \<le> k \<and> k < n then g k else out ! k)"
proof (induction g n i out rule: store_loop.induct)
  case (1 g n i out)
  show ?case
  proof (cases "i < n")
    case True
    have "k = i \<or> k < i \<or> Suc i \<le> k" by arith
    with True 1 show ?thesis
      by (subst store_loop.simps) (auto simp: nth_list_update)
  next
    case False
    then show ?thesis by (subst store_loop.simps) auto
  qed
qed

lemma store4_loop_length [simp]: "length (snd (store4_loop g n i out)) = length out"
  by (induction g n i out rule: store4_loop.induct) (subst store4_loop.simps, simp)

lemma store4_loop_fst: "fst (store4_loop g n i out) = i + 4 * ((n - i) div 4)"
proof (induction g n i out rule: store4_loop.induct)
  case (1 g n i out)
  show ?case
  proof (cases "i + 4 \<le> n")
    case True
    then have "(n - i) div 4 = Suc ((n - (i + 4)) div 4)"
      using le_div_geq [of 4 "n - i"] by (simp add: diff_diff_left)
    with True 1 show ?thesis
      by (subst store4_loop.simps) simp
  next
    case False
    then show ?thesis by (subst store4_loop.simps) simp
  qed
qed

lemma store4_loop_nth:
  "k < length out \<Longrightarrow>
   snd (store4_loop g n i out) ! k =
     (if i \<le> k \<and> k < i + 4 * ((n - i) div 4) then g k else out ! k)"
proof (induction g n i out rule: store4_loop.induct)
  case (1 g n i out)
  show ?case
  proof (cases "i + 4 \<le> n")
    case True
    then have d: "(n - i) div 4 = Suc ((n - (i + 4)) div 4)"
      using le_div_geq [of 4 "n - i"] by (simp add: diff_diff_left)
    have "k = i \<or> k = i + 1 \<or> k = i + 2 \<or> k = i + 3 \<or> k < i \<or> i + 4 \<le> k" by arith
    with True 1 d show ?thesis
      by (subst store4_loop.simps) (auto simp: nth_list_update)
  next
    case False
    then show ?thesis by (subst store4_loop.simps) auto
  qed
qed

lemma calculate_batch_chunks_length:
  "length results = length inputs \<Longrightarrow>
   length (calculate_batch_chunks inputs cfg i results) = length inputs"
  by (induction inputs cfg i results rule: calculate_batch_chunks.induct)
     (subst calculate_batch_chunks.simps, simp add: Let_def)

lemma calculate_batch_chunks_nth:
  "length results = length inputs \<Longrightarrow> k < length inputs \<Longrightarrow>
   calculate_batch_chunks inputs cfg i results ! k =
     (if i \<le> k then calculate (inputs ! k) cfg else results ! k)"
proof (induction inputs cfg i results rule: calculate_batch_chunks.induct)
  case (1 inputs cfg i results)
  show ?case
  proof (cases "i < length inputs")
    case True
    with 1 show ?thesis
      by (subst calculate_batch_chunks.simps) (auto simp: Let_def store_loop_nth)
  next
    case False
    with 1 show ?thesis by (subst calculate_batch_chunks.simps) simp
  qed
qed

lemma calculate_batch_map: "calculate_batch inputs cfg = map (\<lambda>x. calculate x cfg) inputs"
  by (rule nth_equalityI)
     (simp_all add: calculate_batch_def calculate_batch_chunks_length calculate_batch_chunks_nth)

text \<open>
  \<^verbatim>\<open>calculate_batch\<close> is the scalar function applied to every input, in order: the
  first half of C1 holds, and exactly.
\<close>

lemma calculate_batch_pointwise:
  "length (calculate_batch inputs cfg) = length inputs
   \<and> (k < length inputs \<longrightarrow> calculate_batch inputs cfg ! k = calculate (inputs ! k) cfg)"
  by (simp add: calculate_batch_map)

text \<open>
  What \<^verbatim>\<open>calculate_batch_arrays\<close> writes at position \<open>k\<close>, in each of the two builds.
\<close>

lemma calculate_batch_arrays_fallback_nth:
  "k < length output \<Longrightarrow>
   calculate_batch_arrays False n imps hrs acs ccs lahs mts cms cfg output ! k =
     (if k < n then
        calculate \<lparr>importance = imps ! k, hours_passed = hrs ! k, access_count = acs ! k,
          connection_count = ccs ! k, last_access_hours = lahs ! k, memory_type = mts ! k,
          channel_mentions = 0\<rparr> cfg
      else output ! k)"
  by (simp add: calculate_batch_arrays_def store_loop_nth)

lemma calculate_batch_arrays_avx2_nth:
  "k < length output \<Longrightarrow>
   calculate_batch_arrays True n imps hrs acs ccs lahs mts cms cfg output ! k =
     (if k < 4 * (n div 4) then
        avx2_lane (imps ! k) (hrs ! k) (acs ! k) (ccs ! k) (lahs ! k) (mts ! k) (cms ! k) cfg
      else if k < n then
        calculate \<lparr>importance = imps ! k, hours_passed = hrs ! k, access_count = acs ! k,
          connection_count = ccs ! k, last_access_hours = lahs ! k, memory_type = mts ! k,
          channel_mentions = cms ! k\<rparr> cfg
      else output ! k)"
  by (simp add: calculate_batch_arrays_def store_loop_nth store4_loop_nth store4_loop_fst
      split_beta)

lemma not_within_rel_tolerance_exp:
  assumes "1 / 10 ^ 6 \<le> d"
  shows "\<not> within_rel_tolerance (exp (a - d)) (exp a)"
    and "\<not> within_rel_tolerance (exp (a + d)) (exp a)"
proof -
  define e where "e = exp a / 10 ^ 9"
  have pos: "0 < exp a" by simp
  have e0: "0 < e" by (simp add: e_def)
  have up: "1 + d \<le> exp d" by (rule exp_ge_add_one_self)
  have d0: "0 < d" using assms by (rule less_le_trans [rotated]) simp
  have "exp (- d) * (1 + d) \<le> exp (- d) * exp d"
    using up by (intro mult_left_mono) simp_all
  then have dn: "exp (- d) * (1 + d) \<le> 1" by (simp flip: exp_add)
  have "exp (- d) \<le> 1 / (1 + d)"
    using dn d0 by (simp add: pos_le_divide_eq)
  also have "\<dots> < 1 - 1 / 10 ^ 9"
  proof -
    have "1 / (1 + d) \<le> 1 / (1 + 1 / 10 ^ 6)"
      using assms by (intro divide_left_mono) simp_all
    also have "\<dots> < (1::real) - 1 / 10 ^ 9" by simp
    finally show ?thesis .
  qed
  finally have "exp (- d) < 1 - 1 / 10 ^ 9" .
  then have "exp a * exp (- d) < exp a * (1 - 1 / 10 ^ 9)"
    using pos by (intro mult_strict_left_mono)
  moreover have "exp a * exp (- d) = exp (a - d)"
    using exp_add [of a "- d"] by simp
  moreover have "exp a * (1 - 1 / 10 ^ 9) = exp a - e"
    by (simp add: e_def right_diff_distrib)
  ultimately have "exp (a - d) < exp a - e" by simp
  then have "e < \<bar>exp (a - d) - exp a\<bar>" using e0 by linarith
  then show "\<not> within_rel_tolerance (exp (a - d)) (exp a)"
    by (simp add: within_rel_tolerance_def e_def)
  have "1 + 1 / 10 ^ 9 < 1 + d" using assms by (simp add: less_le_trans [rotated])
  also have "\<dots> \<le> exp d" by (rule up)
  finally have "1 + 1 / 10 ^ 9 < exp d" .
  then have "exp a * (1 + 1 / 10 ^ 9) < exp a * exp d"
    using pos by (intro mult_strict_left_mono)
  moreover have "exp a * exp d = exp (a + d)" by (simp add: exp_add)
  moreover have "exp a * (1 + 1 / 10 ^ 9) = exp a + e"
    by (simp add: e_def distrib_left)
  ultimately have "exp a + e < exp (a + d)" by simp
  then have "e < \<bar>exp (a + d) - exp a\<bar>" using e0 by linarith
  then show "\<not> within_rel_tolerance (exp (a + d)) (exp a)"
    by (simp add: within_rel_tolerance_def e_def)
qed

text \<open>
  C1. The second half of the claim fails in both builds. Without \<^verbatim>\<open>HAS_AVX2\<close> the
  record is assembled without \<open>channel_mentions\<close>: for one record of age 100 hours with
  one channel mention and \<open>channel_diversity_k = 0.2\<close> the batch value is \<open>exp (- 1/5)\<close>
  where \<^verbatim>\<open>calculate\<close> gives \<open>exp (- 1/6)\<close>. With \<^verbatim>\<open>HAS_AVX2\<close> the vector loop
  lacks the branch for \<open>hours_passed < 0\<close>: for four records of age \<open>- 1\<close> the batch
  value of the first is \<open>exp (1/500)\<close> where \<^verbatim>\<open>calculate\<close> returns the importance 1.
  Neither pair is equal to within 1e-9 relative error.
\<close>

theorem calculate_batch_arrays_diverges:
  "\<not> within_rel_tolerance
       (calculate_batch_arrays False 1 [1] [100] [0] [0] [- 1] [0] [1] example_config [0] ! 0)
       (calculate
          \<lparr>importance = 1, hours_passed = 100, access_count = 0, connection_count = 0,
           last_access_hours = - 1, memory_type = 0, channel_mentions = 1\<rparr>
          example_config)
   \<and> \<not> within_rel_tolerance
       (calculate_batch_arrays True 4 [1, 1, 1, 1] [- 1, - 1, - 1, - 1] [0, 0, 0, 0]
          [0, 0, 0, 0] [- 1, - 1, - 1, - 1] [0, 0, 0, 0] [0, 0, 0, 0] example_config
          [0, 0, 0, 0] ! 0)
       (calculate
          \<lparr>importance = 1, hours_passed = - 1, access_count = 0, connection_count = 0,
           last_access_hours = - 1, memory_type = 0, channel_mentions = 0\<rparr>
          example_config)"
  (is "\<not> within_rel_tolerance ?b1 ?s1 \<and> \<not> within_rel_tolerance ?b2 ?s2")
proof
  have f1: "(1::real) / 10 \<le> exp (- (1 / 5))"
    using exp_ge_add_one_self [of "- (1 / 5) :: real"] by simp
  have f2: "(1::real) / 10 \<le> exp (- (1 / 6))"
    using exp_ge_add_one_self [of "- (1 / 6) :: real"] by simp
  have b1: "?b1 = exp (- (1 / 6) - 1 / 30)"
    using f1
    by (simp add: calculate_batch_arrays_fallback_nth calculate_def decayed_def
        recency_paradox_def effective_rate_def type_multiplier_def type_idx_def clamp_def
        channel_boost_def stability_def resistance_def fast_log1p_def fast_exp_neg_exp
        max_absorb1)
  have s1: "?s1 = exp (- (1 / 6))"
    using f2
    by (simp add: calculate_def decayed_def
        recency_paradox_def effective_rate_def type_multiplier_def type_idx_def clamp_def
        channel_boost_def stability_def resistance_def fast_log1p_def fast_exp_neg_exp
        max_absorb1)
  show "\<not> within_rel_tolerance ?b1 ?s1"
    unfolding b1 s1 by (rule not_within_rel_tolerance_exp) simp
next
  have f: "(1::real) / 10 \<le> exp (1 / 500)"
    using exp_ge_add_one_self [of "1 / 500 :: real"] by simp
  have b2: "?b2 = exp (0 + 1 / 500)"
    using f
    by (simp add: calculate_batch_arrays_avx2_nth avx2_lane_def clamp_def fast_log1p_def
        fast_exp_neg_exp max_absorb1)
  have s2: "?s2 = exp 0"
    by (simp add: calculate_def)
  show "\<not> within_rel_tolerance ?b2 ?s2"
    unfolding b2 s2 by (rule not_within_rel_tolerance_exp) simp
qed

section \<open>Properties of the similarity functions\<close>

lemma mul_add_loop_sum:
  "i \<le> n \<Longrightarrow> mul_add_loop x y n i acc = acc + (\<Sum>k = i..<n. x k * y k)"
proof (induction x y n i acc rule: mul_add_loop.induct)
  case (1 x y n i acc)
  show ?case
  proof (cases "i < n")
    case True
    with 1 show ?thesis
      by (subst mul_add_loop.simps) (simp add: sum.atLeast_Suc_lessThan add.assoc)
  next
    case False
    with 1 show ?thesis by (subst mul_add_loop.simps) simp
  qed
qed

lemma fmadd_loop_fst: "fst (fmadd_loop x y n i sm) = i + 4 * ((n - i) div 4)"
proof (induction x y n i sm rule: fmadd_loop.induct)
  case (1 x y n i sm)
  show ?case
  proof (cases "i + 4 \<le> n")
    case True
    then have "(n - i) div 4 = Suc ((n - (i + 4)) div 4)"
      using le_div_geq [of 4 "n - i"] by (simp add: diff_diff_left)
    with True 1 show ?thesis
      by (subst fmadd_loop.simps) simp
  next
    case False
    then show ?thesis by (subst fmadd_loop.simps) simp
  qed
qed

lemma fmadd_loop_sum:
  "horizontal_sum (snd (fmadd_loop x y n i sm)) =
     horizontal_sum sm + (\<Sum>k = i..<fst (fmadd_loop x y n i sm). x k * y k)"
proof (induction x y n i sm rule: fmadd_loop.induct)
  case (1 x y n i sm)
  show ?case
  proof (cases "i + 4 \<le> n")
    case True
    let ?s = "fmadd_pd (loadu_pd x i) (loadu_pd y i) sm"
    let ?e = "fst (fmadd_loop x y n (i + 4) ?s)"
    have le: "i + 4 \<le> ?e" by (simp add: fmadd_loop_fst)
    have step: "horizontal_sum ?s = horizontal_sum sm + (\<Sum>k = i..<i + 4. x k * y k)"
    proof -
      have "{i..<i + 4} = {i, i + 1, i + 2, i + 3}" by auto
      then show ?thesis by (cases sm) (simp add: loadu_pd_def)
    qed
    have split: "(\<Sum>k = i..<?e. x k * y k) =
        (\<Sum>k = i..<i + 4. x k * y k) + (\<Sum>k = i + 4..<?e. x k * y k)"
      using le by (simp add: sum.atLeastLessThan_concat)
    have unf: "fmadd_loop x y n i sm = fmadd_loop x y n (i + 4) ?s"
      using True by (subst fmadd_loop.simps) simp
    show ?thesis
      unfolding unf using 1 [OF True] step split by simp
  next
    case False
    then show ?thesis by (subst (1 2) fmadd_loop.simps) simp
  qed
qed

lemma dot_product_sum: "dot_product h x y n = (\<Sum>k < n. x k * y k)"
proof (cases h)
  case False
  then show ?thesis
    by (simp add: dot_product_def mul_add_loop_sum lessThan_atLeast0)
next
  case True
  let ?r = "fmadd_loop x y n 0 setzero_pd"
  have le: "fst ?r \<le> n" by (simp add: fmadd_loop_fst)
  have "dot_product h x y n = mul_add_loop x y n (fst ?r) (horizontal_sum (snd ?r))"
    using True by (simp add: dot_product_def split_beta)
  also have "\<dots> = horizontal_sum (snd ?r) + (\<Sum>k = fst ?r..<n. x k * y k)"
    using le by (rule mul_add_loop_sum)
  also have "\<dots> = (\<Sum>k = 0..<fst ?r. x k * y k) + (\<Sum>k = fst ?r..<n. x k * y k)"
    by (simp add: fmadd_loop_sum setzero_pd_def)
  also have "\<dots> = (\<Sum>k = 0..<n. x k * y k)"
    using le by (simp add: sum.atLeastLessThan_concat)
  finally show ?thesis by (simp add: lessThan_atLeast0)
qed

lemma sum_nth_sum_list: "(\<Sum>k < length xs. f (xs ! k)) = (\<Sum>x\<leftarrow>xs. f x)"
  using sum_list_sum_nth [of "map f xs"] by (simp add: lessThan_atLeast0)

lemma self_product_norm:
  "n = length xs \<Longrightarrow> sqrt (\<Sum>k < n. xs ! k * xs ! k) = euclid_norm xs"
  using sum_nth_sum_list [of "\<lambda>x. x * x" xs] by (simp add: euclid_norm_def power2_eq_square)

lemma product_inner:
  "length xs = length ys \<Longrightarrow> (\<Sum>k < length xs. xs ! k * ys ! k) = inner_product xs ys"
proof -
  assume l: "length xs = length ys"
  have "(\<Sum>(x, y)\<leftarrow>zip xs ys. x * y) = (\<Sum>k < length (zip xs ys). (\<lambda>(x, y). x * y) (zip xs ys ! k))"
    by (rule sum_nth_sum_list [symmetric])
  also have "\<dots> = (\<Sum>k < length xs. xs ! k * ys ! k)"
    using l by (intro sum.cong) simp_all
  finally show ?thesis by (simp add: inner_product_def)
qed

lemma matrix_row_length:
  "length m = n * dim' \<Longrightarrow> v < n \<Longrightarrow> length (matrix_row m dim' v) = dim'"
proof -
  assume l: "length m = n * dim'" and v: "v < n"
  from v have "Suc v \<le> n" by simp
  then have "Suc v * dim' \<le> n * dim'" by (rule mult_le_mono1)
  then have "dim' \<le> n * dim' - v * dim'" by simp
  with l show ?thesis by (simp add: matrix_row_def)
qed

lemma matrix_row_nth:
  "length m = n * dim' \<Longrightarrow> v < n \<Longrightarrow> k < dim' \<Longrightarrow> matrix_row m dim' v ! k = m ! (v * dim' + k)"
proof -
  assume l: "length m = n * dim'" and v: "v < n" and k: "k < dim'"
  from v have "Suc v \<le> n" by simp
  then have "Suc v * dim' \<le> n * dim'" by (rule mult_le_mono1)
  with k l have "v * dim' + k < length m" by simp
  with k show ?thesis by (simp add: matrix_row_def)
qed

lemma cosine_similarity_eq:
  "cosine_similarity h a b =
     (if length a \<noteq> length b \<or> a = [] then 0
      else if euclid_norm a * euclid_norm b < 1 / 10 ^ 10 then 0
      else inner_product a b / (euclid_norm a * euclid_norm b))"
proof (cases "length a \<noteq> length b \<or> a = []")
  case True
  then show ?thesis by (simp add: cosine_similarity_def)
next
  case False
  then have l: "length a = length b" by simp
  have na: "sqrt (\<Sum>k < length a. a ! k * a ! k) = euclid_norm a"
    by (rule self_product_norm) simp
  have nb: "sqrt (\<Sum>k < length a. b ! k * b ! k) = euclid_norm b"
    using l by (intro self_product_norm)
  have ip: "(\<Sum>k < length a. a ! k * b ! k) = inner_product a b"
    using l by (rule product_inner)
  from False show ?thesis
    by (simp only: cosine_similarity_def dot_product_sum Let_def na nb ip if_False)
qed

lemma cosine_similarity_batch_length [simp]:
  "length (cosine_similarity_batch h query corpus n_vectors dim') = n_vectors"
  by (simp add: cosine_similarity_batch_def Let_def)

lemma cosine_similarity_batch_eq:
  assumes q: "length query = dim'" and c: "length corpus = n_vectors * dim'" and v: "v < n_vectors"
  shows "cosine_similarity_batch h query corpus n_vectors dim' ! v =
     (if euclid_norm query < 1 / 10 ^ 10 then 0
      else if euclid_norm (matrix_row corpus dim' v) < 1 / 10 ^ 10 then 0
      else inner_product query (matrix_row corpus dim' v)
           / (euclid_norm query * euclid_norm (matrix_row corpus dim' v)))"
proof -
  let ?row = "matrix_row corpus dim' v"
  have len: "length ?row = dim'" using c v by (rule matrix_row_length)
  have nth: "\<And>k. k < dim' \<Longrightarrow> corpus ! (v * dim' + k) = ?row ! k"
    using matrix_row_nth [OF c v] by simp
  have qn: "sqrt (mul_add_loop (\<lambda>i. query ! i) (\<lambda>i. query ! i) dim' 0 0) = euclid_norm query"
    using q self_product_norm [of dim' query] by (simp add: mul_add_loop_sum lessThan_atLeast0)
  have vn: "sqrt (\<Sum>k < dim'. corpus ! (v * dim' + k) * corpus ! (v * dim' + k)) = euclid_norm ?row"
    using len self_product_norm [of dim' ?row] nth by simp
  have dt: "(\<Sum>k < dim'. query ! k * corpus ! (v * dim' + k)) = inner_product query ?row"
    using product_inner [of query ?row] q len nth by simp
  show ?thesis
    using q v
    by (simp add: cosine_similarity_batch_def Let_def store_loop_nth dot_product_sum qn vn dt)
qed

lemma euclid_norm_single: "euclid_norm [x] = \<bar>x\<bar>"
  by (simp add: euclid_norm_def)

lemma inner_product_single: "inner_product [x] [y] = x * y"
  by (simp add: inner_product_def)

lemma matrix_row_single: "matrix_row [c] 1 0 = [c]"
  by (simp add: matrix_row_def)

lemma cosine_similarity_single:
  "cosine_similarity h [x] [y] =
     (if \<bar>x\<bar> * \<bar>y\<bar> < 1 / 10 ^ 10 then 0 else x * y / (\<bar>x\<bar> * \<bar>y\<bar>))"
  by (simp only: cosine_similarity_eq euclid_norm_single inner_product_single) simp

lemma cosine_similarity_batch_single:
  "cosine_similarity_batch h [q] [c] 1 1 ! 0 =
     (if \<bar>q\<bar> < 1 / 10 ^ 10 then 0
      else if \<bar>c\<bar> < 1 / 10 ^ 10 then 0 else q * c / (\<bar>q\<bar> * \<bar>c\<bar>))"
  using cosine_similarity_batch_eq [of "[q]" 1 "[c]" 1 0 h]
  by (simp only: matrix_row_single euclid_norm_single inner_product_single) simp

text \<open>
  C3. \<^verbatim>\<open>cosine_similarity\<close> does not return 0 for every vector of norm below 1e-10:
  its guard is on \<open>denom = sqrt(norm_a) * sqrt(norm_b)\<close>, not on each norm. The
  one-element vector \<open>[1e-11]\<close> has norm below 1e-10, and against \<open>[1e11]\<close> the product
  of the norms is 1 and the function returns 1, in both builds. The batch function, which
  tests each norm, returns 0 for the same pair (query \<open>[1e-11]\<close>, one-row corpus
  \<open>[1e11]\<close>).
\<close>

theorem cosine_similarity_ignores_small_norm:
  "euclid_norm [1 / 10 ^ 11] < 1 / 10 ^ 10
   \<and> cosine_similarity False [1 / 10 ^ 11] [10 ^ 11] = 1
   \<and> cosine_similarity True [1 / 10 ^ 11] [10 ^ 11] = 1
   \<and> cosine_similarity_batch False [1 / 10 ^ 11] [10 ^ 11] 1 1 ! 0 = 0
   \<and> cosine_similarity_batch True [1 / 10 ^ 11] [10 ^ 11] 1 1 ! 0 = 0"
  by (simp only: euclid_norm_single cosine_similarity_single cosine_similarity_batch_single)
     simp

theorem cosine_similarity_ignores_small_norm_witness:
  "cosine_similarity False [1 / 10 ^ 11] [10 ^ 11] \<noteq> 0
   \<and> cosine_similarity False [1 / 10 ^ 11] [10 ^ 11]
       \<noteq> cosine_similarity_batch False [1 / 10 ^ 11] [10 ^ 11] 1 1 ! 0"
  using cosine_similarity_ignores_small_norm by simp

text \<open>
  C2. The batch score and the pairwise score of the same pair differ where the two
  zero-norm guards disagree: \<^verbatim>\<open>cosine_similarity_batch\<close> tests each norm against
  1e-10, \<^verbatim>\<open>cosine_similarity\<close> tests their product. For the query \<open>[1e-6]\<close> and the
  one-row corpus \<open>[1e-6]\<close> both norms are 1e-6 and their product is 1e-12: the batch
  score is 1 and the pairwise score is 0, in both builds.
\<close>

theorem cosine_similarity_batch_disagrees:
  "cosine_similarity_batch False [1 / 10 ^ 6] [1 / 10 ^ 6] 1 1 ! 0 = 1
   \<and> cosine_similarity False [1 / 10 ^ 6] (matrix_row [1 / 10 ^ 6] 1 0) = 0
   \<and> cosine_similarity_batch True [1 / 10 ^ 6] [1 / 10 ^ 6] 1 1 ! 0 = 1
   \<and> cosine_similarity True [1 / 10 ^ 6] (matrix_row [1 / 10 ^ 6] 1 0) = 0"
  by (simp only: cosine_similarity_batch_single matrix_row_single cosine_similarity_single)
     simp

theorem cosine_similarity_batch_disagrees_witness:
  "cosine_similarity_batch False [1 / 10 ^ 6] [1 / 10 ^ 6] 1 1 ! 0
     \<noteq> cosine_similarity False [1 / 10 ^ 6] (matrix_row [1 / 10 ^ 6] 1 0)"
  using cosine_similarity_batch_disagrees by simp

lemma duplicates_inner_eq:
  "duplicates_inner h e n dim' t norms i j dups = dups @ inner_hits h e n dim' t norms i j"
proof (induction h e n dim' t norms i j dups rule: duplicates_inner.induct)
  case (1 h e n dim' t norms i j dups)
  show ?case
  proof (cases "j < n")
    case True
    then have u: "[j..<n] = j # [Suc j..<n]" by (rule upt_conv_Cons)
    from True 1 show ?thesis
      by (subst duplicates_inner.simps) (simp add: inner_hits_def u Let_def)
  next
    case False
    then show ?thesis by (subst duplicates_inner.simps) (simp add: inner_hits_def)
  qed
qed

lemma duplicates_outer_eq:
  "duplicates_outer h e n dim' t norms i dups =
     dups @ concat (map (\<lambda>i. if norms ! i < 1 / 10 ^ 10 then []
                              else inner_hits h e n dim' t norms i (Suc i)) [i..<n])"
proof (induction h e n dim' t norms i dups rule: duplicates_outer.induct)
  case (1 h e n dim' t norms i dups)
  show ?case
  proof (cases "i < n")
    case True
    then have u: "[i..<n] = i # [Suc i..<n]" by (rule upt_conv_Cons)
    from True 1 show ?thesis
      by (subst duplicates_outer.simps) (simp add: u duplicates_inner_eq)
  next
    case False
    then show ?thesis by (subst duplicates_outer.simps) simp
  qed
qed

lemma sorted_wrt_concat_upt:
  assumes "\<And>k. sorted_wrt R (f k)"
    and "\<And>k l x y. k < l \<Longrightarrow> x \<in> set (f k) \<Longrightarrow> y \<in> set (f l) \<Longrightarrow> R x y"
  shows "sorted_wrt R (concat (map f [i..<n]))"
proof (induction n)
  case 0
  show ?case by simp
next
  case (Suc n)
  show ?case
  proof (cases "i \<le> n")
    case True
    with Suc assms show ?thesis by (auto simp: sorted_wrt_append)
  next
    case False
    then show ?thesis by simp
  qed
qed

lemma inner_hits_set:
  "(a, b, s) \<in> set (inner_hits h e n dim' t norms i j) \<longleftrightarrow>
     a = i \<and> j \<le> b \<and> b < n \<and> \<not> norms ! b < 1 / 10 ^ 10
     \<and> s = pair_similarity h e dim' norms i b \<and> t \<le> s"
  by (auto simp: inner_hits_def)

lemma inner_hits_sorted: "sorted_wrt pair_order (inner_hits h e n dim' t norms i j)"
proof -
  have "sorted_wrt (<) (filter (\<lambda>j. \<not> norms ! j < 1 / 10 ^ 10
          \<and> t \<le> pair_similarity h e dim' norms i j) [j..<n])"
    by (intro sorted_wrt_filter) simp
  then show ?thesis
    by (simp add: inner_hits_def sorted_wrt_map pair_order_def)
qed

lemma find_duplicates_set:
  "(i, j, s) \<in> set (find_duplicates_by_embedding h e n dim' t) \<longleftrightarrow>
     i < j \<and> j < n \<and> \<not> row_norms e n dim' ! i < 1 / 10 ^ 10
     \<and> \<not> row_norms e n dim' ! j < 1 / 10 ^ 10
     \<and> s = pair_similarity h e dim' (row_norms e n dim') i j \<and> t \<le> s"
  by (auto simp: find_duplicates_by_embedding_def duplicates_outer_eq inner_hits_set)

lemma find_duplicates_sorted:
  "sorted_wrt pair_order (find_duplicates_by_embedding h e n dim' t)"
  unfolding find_duplicates_by_embedding_def duplicates_outer_eq append_Nil
  by (rule sorted_wrt_concat_upt)
     (auto simp: inner_hits_sorted inner_hits_set pair_order_def split: if_splits)

lemma row_norms_nth:
  assumes "length e = n * dim'" and "i < n"
  shows "row_norms e n dim' ! i = euclid_norm (matrix_row e dim' i)"
proof -
  let ?row = "matrix_row e dim' i"
  have len: "length ?row = dim'" using assms by (rule matrix_row_length)
  have nth: "\<And>k. k < dim' \<Longrightarrow> e ! (i * dim' + k) = ?row ! k"
    using matrix_row_nth [OF assms] by simp
  have "sqrt (\<Sum>k < dim'. e ! (i * dim' + k) * e ! (i * dim' + k)) = euclid_norm ?row"
    using len self_product_norm [of dim' ?row] nth by simp
  then show ?thesis
    using assms(2)
    by (simp add: row_norms_def store_loop_nth mul_add_loop_sum lessThan_atLeast0)
qed

lemma pair_similarity_cosine:
  assumes "length e = n * dim'" and "i < n" and "j < n"
  shows "pair_similarity h e dim' (row_norms e n dim') i j
         = cosine (matrix_row e dim' i) (matrix_row e dim' j)"
proof -
  let ?ri = "matrix_row e dim' i" and ?rj = "matrix_row e dim' j"
  have li: "length ?ri = dim'" using assms(1,2) by (rule matrix_row_length)
  have lj: "length ?rj = dim'" using assms(1,3) by (rule matrix_row_length)
  have "(\<Sum>k < dim'. e ! (i * dim' + k) * e ! (j * dim' + k)) = (\<Sum>k < dim'. ?ri ! k * ?rj ! k)"
    using matrix_row_nth [OF assms(1,2)] matrix_row_nth [OF assms(1,3)] by simp
  also have "\<dots> = inner_product ?ri ?rj"
    using product_inner [of ?ri ?rj] li lj by simp
  finally show ?thesis
    using assms
    by (simp add: pair_similarity_def dot_product_sum row_norms_nth cosine_def)
qed

lemma sorted_wrt_neq_distinct: "sorted_wrt (\<lambda>p q. p \<noteq> q) xs \<Longrightarrow> distinct xs"
  by (induction xs) auto

text \<open>
  C4. For a row-major matrix of \<open>n\<close> rows of length \<open>dim'\<close>, the result holds the tuple
  \<open>(i, j, s)\<close> if and only if \<open>i < j < n\<close>, rows \<open>i\<close> and \<open>j\<close> both have Euclidean
  norm at least 1e-10, \<open>s\<close> is the cosine similarity of the two rows (their inner
  product over the product of their norms) and \<open>s \<ge> threshold\<close>; the tuples stand in
  strictly ascending order of \<open>(i, j)\<close>, so every qualifying pair occurs exactly once and
  nothing is sorted by similarity.
\<close>

theorem find_duplicates_characterisation:
  assumes "length embeddings = n * dim'"
  shows "((i, j, s) \<in> set (find_duplicates_by_embedding h embeddings n dim' threshold) \<longleftrightarrow>
            i < j \<and> j < n
            \<and> 1 / 10 ^ 10 \<le> euclid_norm (matrix_row embeddings dim' i)
            \<and> 1 / 10 ^ 10 \<le> euclid_norm (matrix_row embeddings dim' j)
            \<and> s = cosine (matrix_row embeddings dim' i) (matrix_row embeddings dim' j)
            \<and> threshold \<le> s)
         \<and> sorted_wrt pair_order (find_duplicates_by_embedding h embeddings n dim' threshold)
         \<and> distinct (map (\<lambda>(i, j, s). (i, j))
              (find_duplicates_by_embedding h embeddings n dim' threshold))"
proof (intro conjI)
  show "(i, j, s) \<in> set (find_duplicates_by_embedding h embeddings n dim' threshold) \<longleftrightarrow>
            i < j \<and> j < n
            \<and> 1 / 10 ^ 10 \<le> euclid_norm (matrix_row embeddings dim' i)
            \<and> 1 / 10 ^ 10 \<le> euclid_norm (matrix_row embeddings dim' j)
            \<and> s = cosine (matrix_row embeddings dim' i) (matrix_row embeddings dim' j)
            \<and> threshold \<le> s"
  proof (cases "i < j \<and> j < n")
    case True
    then have "i < n" "j < n" by simp_all
    then show ?thesis
      using True
      by (simp add: find_duplicates_set row_norms_nth [OF assms]
          pair_similarity_cosine [OF assms] not_less)
  next
    case False
    then show ?thesis by (auto simp: find_duplicates_set)
  qed
  show s: "sorted_wrt pair_order (find_duplicates_by_embedding h embeddings n dim' threshold)"
    by (rule find_duplicates_sorted)
  have "sorted_wrt (\<lambda>p q. p \<noteq> q) (map (\<lambda>(i, j, s). (i, j))
              (find_duplicates_by_embedding h embeddings n dim' threshold))"
    unfolding sorted_wrt_map
    by (rule sorted_wrt_mono_rel [OF _ s]) (auto simp: pair_order_def)
  then show "distinct (map (\<lambda>(i, j, s). (i, j))
              (find_duplicates_by_embedding h embeddings n dim' threshold))"
    by (rule sorted_wrt_neq_distinct)
qed

theorem find_duplicates_characterisation_witness:
  "length [1, 0, 1, 0, 0, 1 :: real] = 3 * 2
   \<and> (0, 1, 1) \<in> set (find_duplicates_by_embedding False [1, 0, 1, 0, 0, 1] 3 2 (99 / 100))
   \<and> (0, 2, 0) \<notin> set (find_duplicates_by_embedding False [1, 0, 1, 0, 0, 1] 3 2 (99 / 100))
   \<and> sorted_wrt pair_order (find_duplicates_by_embedding False [1, 0, 1, 0, 0, 1] 3 2 (99 / 100))
   \<and> distinct (map (\<lambda>(i, j, s). (i, j))
        (find_duplicates_by_embedding False [1, 0, 1, 0, 0, 1] 3 2 (99 / 100)))"
proof -
  have l: "length [1, 0, 1, 0, 0, 1 :: real] = 3 * 2" by simp
  have r0: "matrix_row [1, 0, 1, 0, 0, 1] 2 0 = [1, 0]"
    and r1: "matrix_row [1, 0, 1, 0, 0, 1] 2 1 = [1, 0]"
    and r2: "matrix_row [1, 0, 1, 0, 0, 1] 2 2 = [0, 1]"
    by (simp_all add: matrix_row_def)
  have n: "euclid_norm [1, 0] = 1" "euclid_norm [0, 1] = 1"
    by (simp_all add: euclid_norm_def)
  have c: "cosine [1, 0] [1, 0] = 1" "cosine [1, 0] [0, 1] = 0"
    by (simp_all add: cosine_def inner_product_def n)
  show ?thesis
    using find_duplicates_characterisation [OF l, of 0 1 1 False "99 / 100"]
      find_duplicates_characterisation [OF l, of 0 2 0 False "99 / 100"]
    by (simp only: r0 r1 r2 n c) simp
qed

section \<open>Properties of bfs_neighbors\<close>

lemma enqueue_unvisited_visited:
  "fst (enqueue_unvisited nodes d (visited, frontier)) = visited \<union> set nodes"
  by (induction nodes arbitrary: visited frontier) auto

lemma enqueue_unvisited_depths:
  "set (snd (enqueue_unvisited nodes d (visited, frontier))) \<subseteq> set frontier \<union> (UNIV \<times> {d})"
proof (induction nodes arbitrary: visited frontier)
  case Nil
  show ?case by simp
next
  case (Cons node nodes)
  show ?case
  proof (cases "node \<in> visited")
    case True
    with Cons show ?thesis by simp
  next
    case False
    have "set (snd (enqueue_unvisited nodes d (insert node visited, frontier @ [(node, d)])))
          \<subseteq> set (frontier @ [(node, d)]) \<union> (UNIV \<times> {d})"
      by (rule Cons.IH)
    with False show ?thesis by auto
  qed
qed

lemma bfs_loop_grows: "fst state \<subseteq> bfs_loop adjacency max_depth state"
proof (induction adjacency max_depth state rule: bfs_loop.induct)
  case (1 adjacency max_depth visited)
  show ?case by (simp add: bfs_loop.simps)
next
  case (2 adjacency max_depth visited current depth frontier)
  show ?case
  proof (cases "depth \<ge> max_depth")
    case True
    with 2 show ?thesis by (simp add: bfs_loop.simps)
  next
    case False
    show ?thesis
    proof (cases "fmlookup adjacency current")
      case None
      with False 2 show ?thesis by (simp add: bfs_loop.simps)
    next
      case (Some neighbors)
      have "visited \<subseteq> fst (enqueue_unvisited neighbors (depth + 1) (visited, frontier))"
        by (simp add: enqueue_unvisited_visited)
      also have "\<dots> \<subseteq> bfs_loop adjacency max_depth
          (enqueue_unvisited neighbors (depth + 1) (visited, frontier))"
        using False Some by (intro "2.IH"(3)) simp_all
      finally show ?thesis using False Some by (simp add: bfs_loop.simps)
    qed
  qed
qed

lemma bfs_loop_no_expansion:
  "\<forall>(node, depth) \<in> set frontier. max_depth \<le> depth \<Longrightarrow>
   bfs_loop adjacency max_depth (visited, frontier) = visited"
  by (induction frontier) (auto simp: bfs_loop.simps)

text \<open>
  C10. Whatever the adjacency, the start nodes and \<open>max_depth\<close>, the returned set
  contains every start node; and when \<open>max_depth \<le> 0\<close> it is exactly the set of start
  nodes, whatever the adjacency.
\<close>

theorem bfs_neighbors_start_nodes:
  "set start_nodes \<subseteq> bfs_neighbors adjacency start_nodes max_depth
   \<and> (max_depth \<le> 0 \<longrightarrow> bfs_neighbors adjacency start_nodes max_depth = set start_nodes)"
proof
  let ?init = "enqueue_unvisited start_nodes 0 ({}, [])"
  have v: "fst ?init = set start_nodes" by (simp add: enqueue_unvisited_visited)
  show "set start_nodes \<subseteq> bfs_neighbors adjacency start_nodes max_depth"
    using bfs_loop_grows [of ?init adjacency max_depth] by (simp add: bfs_neighbors_def v)
  show "max_depth \<le> 0 \<longrightarrow> bfs_neighbors adjacency start_nodes max_depth = set start_nodes"
  proof
    assume m: "max_depth \<le> 0"
    have "set (snd ?init) \<subseteq> UNIV \<times> {0}"
      using enqueue_unvisited_depths [of start_nodes 0 "{}" "[]"] by simp
    with m have "\<forall>(node, depth) \<in> set (snd ?init). max_depth \<le> depth" by auto
    then have "bfs_loop adjacency max_depth (fst ?init, snd ?init) = fst ?init"
      by (rule bfs_loop_no_expansion)
    then have "bfs_loop adjacency max_depth ?init = fst ?init"
      by (simp only: prod.collapse)
    then show "bfs_neighbors adjacency start_nodes max_depth = set start_nodes"
      by (simp only: bfs_neighbors_def v)
  qed
qed

theorem bfs_neighbors_start_nodes_witness:
  "set [1, 5, 1] \<subseteq> bfs_neighbors (fmap_of_list [(1, [2, 3]), (2, [4])]) [1, 5, 1] 0
   \<and> (0::int) \<le> 0
   \<and> bfs_neighbors (fmap_of_list [(1, [2, 3]), (2, [4])]) [1, 5, 1] 0 = set [1, 5, 1]"
  using bfs_neighbors_start_nodes [of "[1, 5, 1]" "fmap_of_list [(1, [2, 3]), (2, [4])]" 0]
  by simp

text \<open>A run with a positive depth, for comparison: one step from node 1.\<close>

lemma bfs_neighbors_one_step:
  "bfs_neighbors (fmap_of_list [(1, [2, 3]), (2, [4])]) [1] 1 = {1, 2, 3}"
  by (simp add: bfs_neighbors_def bfs_loop.simps insert_commute)

end
